theory Spec2Isabelle
  imports Main "HOL-Library.Multiset"
begin

section \<open>The host language: numbers, values, strings\<close>

text \<open>
  A JavaScript number that is either an integer or \<open>NaN\<close>. Time values (milliseconds since
  the epoch) and calendar fields are of this kind; \<open>None\<close> is \<open>NaN\<close>. Every comparison with
  \<open>NaN\<close> is false and every subtraction with \<open>NaN\<close> is \<open>NaN\<close>.
\<close>

type_synonym number = "int option"

definition jsSub :: "number \<Rightarrow> number \<Rightarrow> number" where
  "jsSub a b = (case a of None \<Rightarrow> None | Some x \<Rightarrow> (case b of None \<Rightarrow> None | Some y \<Rightarrow> Some (x - y)))"

definition jsLt :: "number \<Rightarrow> number \<Rightarrow> bool" where
  "jsLt a b = (case a of None \<Rightarrow> False | Some x \<Rightarrow> (case b of None \<Rightarrow> False | Some y \<Rightarrow> x < y))"

definition jsGe :: "number \<Rightarrow> number \<Rightarrow> bool" where
  "jsGe a b = (case a of None \<Rightarrow> False | Some x \<Rightarrow> (case b of None \<Rightarrow> False | Some y \<Rightarrow> x \<ge> y))"

definition jsEq :: "number \<Rightarrow> number \<Rightarrow> bool" where
  "jsEq a b = (case a of None \<Rightarrow> False | Some x \<Rightarrow> (case b of None \<Rightarrow> False | Some y \<Rightarrow> x = y))"

text \<open>Decimal rendering of numbers (\<open>Number.prototype.toString\<close> on integers and \<open>NaN\<close>).\<close>

definition digitChar :: "nat \<Rightarrow> char" where
  "digitChar d = ''0123456789'' ! d"

fun showNat :: "nat \<Rightarrow> string" where
  "showNat n = (if n < 10 then [digitChar n] else showNat (n div 10) @ [digitChar (n mod 10)])"

declare showNat.simps [simp del]

definition showInt :: "int \<Rightarrow> string" where
  "showInt i = (if i < 0 then CHR ''-'' # showNat (nat (- i)) else showNat (nat i))"

definition numToString :: "number \<Rightarrow> string" where
  "numToString v = (case v of None \<Rightarrow> ''NaN'' | Some i \<Rightarrow> showInt i)"

text \<open>\<open>s.padStart(n, c)\<close> for a one-character pad string.\<close>

definition padStart :: "nat \<Rightarrow> char \<Rightarrow> string \<Rightarrow> string" where
  "padStart n c s = (if length s \<ge> n then s else replicate (n - length s) c @ s)"

text \<open>
  The values a record field of the service's JSON can hold: \<open>null\<close>, a number, a string.
  Numbers are restricted to integers (of magnitude below \<open>10^21\<close>, which print in plain
  decimal). \<open>truthy\<close> is the test of the conditional operator, \<open>toStr\<close> the conversion
  a template literal applies.
\<close>

datatype jsval = JNull | JNum int | JStr string

fun truthy :: "jsval \<Rightarrow> bool" where
  "truthy JNull = False"
| "truthy (JNum n) = (n \<noteq> 0)"
| "truthy (JStr s) = (s \<noteq> [])"

fun toStr :: "jsval \<Rightarrow> string" where
  "toStr JNull = ''null''"
| "toStr (JNum n) = showInt n"
| "toStr (JStr s) = s"

text \<open>
  The host's \<open>Date\<close>: \<open>parse\<close> is the time value of \<open>new Date(s)\<close> (\<open>NaN\<close> for an
  unparseable string), the other three read the local calendar fields of a valid time
  value. Parsing and the time zone belong to the platform, so they are parameters.
\<close>

record host =
  parse :: "string \<Rightarrow> number"
  getDate :: "int \<Rightarrow> int"
  getMonth :: "int \<Rightarrow> int"
  getFullYear :: "int \<Rightarrow> int"

subsection \<open>Array operations\<close>

text \<open>
  \<open>Array.prototype.sort\<close> with a comparator. A comparator result of \<open>NaN\<close> counts as
  \<open>+0\<close> (a tie). The sort is stable; it is modelled as a stable insertion sort. When the
  comparator is consistent the language fixes the result and this is it; otherwise the
  language leaves the order to the engine and the model fixes the order an insertion of
  each element before the first element it does not exceed gives.
\<close>

definition positive :: "number \<Rightarrow> bool" where
  "positive v = (case v of None \<Rightarrow> False | Some d \<Rightarrow> d > 0)"

fun insertBy :: "('a \<Rightarrow> 'a \<Rightarrow> number) \<Rightarrow> 'a \<Rightarrow> 'a list \<Rightarrow> 'a list" where
  "insertBy cmp x [] = [x]"
| "insertBy cmp x (y # ys) = (if positive (cmp x y) then y # insertBy cmp x ys else x # y # ys)"

fun arraySort :: "('a \<Rightarrow> 'a \<Rightarrow> number) \<Rightarrow> 'a list \<Rightarrow> 'a list" where
  "arraySort cmp [] = []"
| "arraySort cmp (x # xs) = insertBy cmp x (arraySort cmp xs)"

text \<open>\<open>Array.prototype.findIndex\<close>: the first index whose element passes, else \<open>-1\<close>.\<close>

fun findIndexFrom :: "('a \<Rightarrow> bool) \<Rightarrow> 'a list \<Rightarrow> int \<Rightarrow> int" where
  "findIndexFrom p [] k = - 1"
| "findIndexFrom p (x # xs) k = (if p x then k else findIndexFrom p xs (k + 1))"

definition findIndex :: "('a \<Rightarrow> bool) \<Rightarrow> 'a list \<Rightarrow> int" where
  "findIndex p xs = findIndexFrom p xs 0"

text \<open>\<open>Array.prototype.slice(start, end)\<close>, negative arguments counting from the end.\<close>

definition slice :: "'a list \<Rightarrow> int \<Rightarrow> int \<Rightarrow> 'a list" where
  "slice xs start end =
     (let len = int (length xs);
          k = (if start < 0 then max (len + start) 0 else min start len);
          final = (if end < 0 then max (len + end) 0 else min end len)
      in take (nat (final - k)) (drop (nat k) xs))"

section \<open>The coupons widget\<close>

text \<open>A coupon record of the service, and an entry of the widget (\<open>CouponData\<close>).\<close>

record coupon =
  coupondate :: string
  valueprc :: jsval
  value_rub :: jsval

record CouponData =
  paymentDate :: string
  rate :: string
  amount :: string
  current :: bool
  disabled :: bool

text \<open>The rouble sign U+20BD, as its UTF-8 bytes.\<close>

definition rouble :: string where
  "rouble = [char_of (226::nat), char_of (130::nat), char_of (189::nat)]"

definition formatDate :: "host \<Rightarrow> string \<Rightarrow> string" where
  "formatDate H dateString =
     (let date = parse H dateString;
          day = padStart 2 (CHR ''0'') (numToString (map_option (getDate H) date));
          month = padStart 2 (CHR ''0'') (numToString (map_option (\<lambda>t. getMonth H t + 1) date));
          year = map_option (getFullYear H) date
      in day @ ''.'' @ month @ ''.'' @ numToString year)"

definition getCouponStatus :: "host \<Rightarrow> string \<Rightarrow> int \<Rightarrow> string option \<Rightarrow> string" where
  "getCouponStatus H couponDate currentDate currentCouponDate =
     (let couponDateTime = parse H couponDate;
          currentDateTime = Some currentDate
      in if Some couponDate = currentCouponDate then ''current''
         else if jsLt couponDateTime currentDateTime then ''disabled''
         else if jsEq couponDateTime currentDateTime then ''upcoming''
         else '''')"

text \<open>The body of the \<open>map\<close> callback of \<open>convertMOEXData\<close>.\<close>

definition toCouponData :: "host \<Rightarrow> int \<Rightarrow> string option \<Rightarrow> coupon \<Rightarrow> CouponData" where
  "toCouponData H currentDate currentCouponDate c =
     (let status = getCouponStatus H (coupondate c) currentDate currentCouponDate
      in \<lparr> paymentDate = formatDate H (coupondate c),
           rate = (if truthy (valueprc c) then toStr (valueprc c) @ ''%'' else ''-''),
           amount = (if truthy (value_rub c) then toStr (value_rub c) @ rouble else ''-''),
           current = (status = ''current''),
           disabled = (status = ''disabled'') \<rparr>)"

text \<open>The sort comparator and the search predicate of \<open>convertMOEXData\<close>.\<close>

definition byDate :: "host \<Rightarrow> coupon \<Rightarrow> coupon \<Rightarrow> number" where
  "byDate H a b = jsSub (parse H (coupondate a)) (parse H (coupondate b))"

definition upcoming :: "host \<Rightarrow> int \<Rightarrow> coupon \<Rightarrow> bool" where
  "upcoming H currentDate c = jsGe (parse H (coupondate c)) (Some currentDate)"

text \<open>
  \<open>convertMOEXData\<close>; \<open>currentDate\<close> is the value of \<open>new Date()\<close> after
  \<open>setHours(0, 0, 0, 0)\<close>, a valid time value.
\<close>

definition convertMOEXData :: "host \<Rightarrow> int \<Rightarrow> coupon list \<Rightarrow> CouponData list" where
  "convertMOEXData H currentDate couponsData =
     (if length couponsData = 0 then []
      else
        let sortedCoupons = arraySort (byDate H) couponsData;
            found = findIndex (upcoming H currentDate) sortedCoupons;
            firstUpcomingIndex = (if found = - 1 then int (length sortedCoupons) else found);
            startIndex = max 0 (firstUpcomingIndex - 2);
            endIndex = min (int (length sortedCoupons))
                         (if startIndex = 0 then firstUpcomingIndex + 5 else firstUpcomingIndex + 3);
            selectedCoupons = slice sortedCoupons startIndex endIndex;
            currentCouponDate =
              (if firstUpcomingIndex < int (length sortedCoupons)
               then Some (coupondate (sortedCoupons ! nat firstUpcomingIndex))
               else None)
        in map (toCouponData H currentDate currentCouponDate) selectedCoupons)"

subsection \<open>The legacy script\<close>

text \<open>
  The plain-script widget has the same \<open>getCouponStatus\<close> and \<open>formatDate\<close>; its
  \<open>convertMOEXData\<close> always ends the window three past the first upcoming index and
  always renders rate and amount through the template literal.
\<close>

definition toCouponData_legacy :: "host \<Rightarrow> int \<Rightarrow> string option \<Rightarrow> coupon \<Rightarrow> CouponData" where
  "toCouponData_legacy H currentDate currentCouponDate c =
     (let status = getCouponStatus H (coupondate c) currentDate currentCouponDate
      in \<lparr> paymentDate = formatDate H (coupondate c),
           rate = toStr (valueprc c) @ ''%'',
           amount = toStr (value_rub c) @ rouble,
           current = (status = ''current''),
           disabled = (status = ''disabled'') \<rparr>)"

definition convertMOEXData_legacy :: "host \<Rightarrow> int \<Rightarrow> coupon list \<Rightarrow> CouponData list" where
  "convertMOEXData_legacy H currentDate couponsData =
     (if length couponsData = 0 then []
      else
        let sortedCoupons = arraySort (byDate H) couponsData;
            found = findIndex (upcoming H currentDate) sortedCoupons;
            firstUpcomingIndex = (if found = - 1 then int (length sortedCoupons) else found);
            startIndex = max 0 (firstUpcomingIndex - 2);
            endIndex = min (int (length sortedCoupons)) (firstUpcomingIndex + 3);
            selectedCoupons = slice sortedCoupons startIndex endIndex;
            currentCouponDate =
              (if firstUpcomingIndex < int (length sortedCoupons)
               then Some (coupondate (sortedCoupons ! nat firstUpcomingIndex))
               else None)
        in map (toCouponData_legacy H currentDate currentCouponDate) selectedCoupons)"

subsection \<open>Named local constants\<close>

text \<open>
  The local constants of \<open>convertMOEXData\<close> as functions of its input, so that
  statements can name them. \<open>convertMOEXData_locals\<close> below ties them to the function.
\<close>

definition sortedCoupons :: "host \<Rightarrow> coupon list \<Rightarrow> coupon list" where
  "sortedCoupons H couponsData = arraySort (byDate H) couponsData"

definition firstUpcomingIndex :: "host \<Rightarrow> int \<Rightarrow> coupon list \<Rightarrow> int" where
  "firstUpcomingIndex H currentDate couponsData =
     (let found = findIndex (upcoming H currentDate) (sortedCoupons H couponsData)
      in if found = - 1 then int (length (sortedCoupons H couponsData)) else found)"

definition startIndex :: "host \<Rightarrow> int \<Rightarrow> coupon list \<Rightarrow> int" where
  "startIndex H currentDate couponsData = max 0 (firstUpcomingIndex H currentDate couponsData - 2)"

definition endIndex :: "host \<Rightarrow> int \<Rightarrow> coupon list \<Rightarrow> int" where
  "endIndex H currentDate couponsData =
     min (int (length (sortedCoupons H couponsData)))
       (if startIndex H currentDate couponsData = 0
        then firstUpcomingIndex H currentDate couponsData + 5
        else firstUpcomingIndex H currentDate couponsData + 3)"

definition selectedCoupons :: "host \<Rightarrow> int \<Rightarrow> coupon list \<Rightarrow> coupon list" where
  "selectedCoupons H currentDate couponsData =
     slice (sortedCoupons H couponsData)
       (startIndex H currentDate couponsData) (endIndex H currentDate couponsData)"

definition currentCouponDate :: "host \<Rightarrow> int \<Rightarrow> coupon list \<Rightarrow> string option" where
  "currentCouponDate H currentDate couponsData =
     (if firstUpcomingIndex H currentDate couponsData < int (length (sortedCoupons H couponsData))
      then Some (coupondate (sortedCoupons H couponsData ! nat (firstUpcomingIndex H currentDate couponsData)))
      else None)"

subsection \<open>Notions used in the statements\<close>

text \<open>Every date string of the input parses.\<close>

definition allParse :: "host \<Rightarrow> coupon list \<Rightarrow> bool" where
  "allParse H cs = (\<forall>c\<in>set cs. parse H (coupondate c) \<noteq> None)"

text \<open>
  A sequence of coupons is chronologically non-decreasing when no coupon is dated strictly
  before one that precedes it. A coupon whose date does not parse is not counted against the
  order (the comparison with \<open>NaN\<close> is false).
\<close>

definition chronological :: "host \<Rightarrow> coupon list \<Rightarrow> bool" where
  "chronological H cs =
     sorted_wrt (\<lambda>a b. \<not> jsLt (parse H (coupondate b)) (parse H (coupondate a))) cs"

subsection \<open>A concrete host and sample data\<close>

text \<open>
  A host in the UTC time zone, restricted to the dates the scenarios below use: each row
  is an ISO date string, its time value in milliseconds, and its day, month index and year.
  Every other string is unparseable.
\<close>

definition calendar :: "(string \<times> int \<times> int \<times> int \<times> int) list" where
  "calendar =
     [(''2024-01-15'', 1705276800000, 15, 0, 2024),
      (''2024-02-15'', 1707955200000, 15, 1, 2024),
      (''2024-03-15'', 1710460800000, 15, 2, 2024),
      (''2024-04-15'', 1713139200000, 15, 3, 2024),
      (''2024-05-15'', 1715731200000, 15, 4, 2024),
      (''2024-06-15'', 1718409600000, 15, 5, 2024),
      (''2024-07-15'', 1721001600000, 15, 6, 2024),
      (''2024-08-15'', 1723680000000, 15, 7, 2024),
      (''2024-09-15'', 1726358400000, 15, 8, 2024),
      (''2024-10-15'', 1728950400000, 15, 9, 2024)]"

definition calendarRow :: "int \<Rightarrow> (int \<times> int \<times> int)" where
  "calendarRow t = (case map_of (map snd calendar) t of Some r \<Rightarrow> r | None \<Rightarrow> (0, 0, 0))"

definition utcHost :: host where
  "utcHost = \<lparr> parse = (\<lambda>s. map_option fst (map_of calendar s)),
               getDate = (\<lambda>t. fst (calendarRow t)),
               getMonth = (\<lambda>t. fst (snd (calendarRow t))),
               getFullYear = (\<lambda>t. snd (snd (calendarRow t))) \<rparr>"

text \<open>A coupon of the given date with rate 7 and amount 35.\<close>

definition couponOn :: "string \<Rightarrow> coupon" where
  "couponOn d = \<lparr> coupondate = d, valueprc = JNum 7, value_rub = JNum 35 \<rparr>"

text \<open>Midnight (UTC) of 1 December 2023, 1 June 2024 and 1 January 2025.\<close>

definition dec2023 :: int where "dec2023 = 1701388800000"
definition jun2024 :: int where "jun2024 = 1717200000000"
definition jan2025 :: int where "jan2025 = 1735689600000"

text \<open>Sample inputs: ten monthly coupons from January to October 2024, and shorter runs.\<close>

definition tenMonths :: "coupon list" where
  "tenMonths = map couponOn
     [''2024-01-15'', ''2024-02-15'', ''2024-03-15'', ''2024-04-15'', ''2024-05-15'',
      ''2024-06-15'', ''2024-07-15'', ''2024-08-15'', ''2024-09-15'', ''2024-10-15'']"

definition aprilToSeptember :: "coupon list" where
  "aprilToSeptember = map couponOn
     [''2024-04-15'', ''2024-05-15'', ''2024-06-15'', ''2024-07-15'', ''2024-08-15'',
      ''2024-09-15'']"

definition aprilToOctober :: "coupon list" where
  "aprilToOctober = map couponOn
     [''2024-04-15'', ''2024-05-15'', ''2024-06-15'', ''2024-07-15'', ''2024-08-15'',
      ''2024-09-15'', ''2024-10-15'']"

definition mayToOctober :: "coupon list" where
  "mayToOctober = map couponOn
     [''2024-05-15'', ''2024-06-15'', ''2024-07-15'', ''2024-08-15'', ''2024-09-15'',
      ''2024-10-15'']"

text \<open>
  Further samples: a single January coupon, two coupons of the same date, inputs with an
  unparseable date, and a July coupon without rate and with amount zero.
\<close>

definition januaryOnly :: "coupon list" where
  "januaryOnly = [couponOn ''2024-01-15'']"

definition julyTwice :: "coupon list" where
  "julyTwice = [couponOn ''2024-07-15'', couponOn ''2024-07-15'']"

definition garbageOnly :: "coupon list" where
  "garbageOnly = [couponOn ''garbage'']"

definition garbageThenJanuary :: "coupon list" where
  "garbageThenJanuary = [couponOn ''garbage'', couponOn ''2024-01-15'']"

definition marchGarbageJanuary :: "coupon list" where
  "marchGarbageJanuary = [couponOn ''2024-03-15'', couponOn ''garbage'', couponOn ''2024-01-15'']"

definition julyNoRate :: "coupon list" where
  "julyNoRate = [\<lparr> coupondate = ''2024-07-15'', valueprc = JNull, value_rub = JNum 0 \<rparr>]"

section \<open>Basic facts\<close>

lemma convertMOEXData_locals:
  "convertMOEXData H t cs =
     (if cs = [] then []
      else map (toCouponData H t (currentCouponDate H t cs)) (selectedCoupons H t cs))"
  by (simp add: convertMOEXData_def Let_def selectedCoupons_def currentCouponDate_def
      startIndex_def endIndex_def firstUpcomingIndex_def sortedCoupons_def)

subsection \<open>Search, sort and slice\<close>

lemma findIndexFrom_eq:
  "findIndexFrom p xs k =
     (if \<exists>x\<in>set xs. p x then k + int (length (takeWhile (\<lambda>x. \<not> p x) xs)) else - 1)"
  by (induction xs arbitrary: k) auto

lemma findIndex_eq:
  "findIndex p xs =
     (if \<exists>x\<in>set xs. p x then int (length (takeWhile (\<lambda>x. \<not> p x) xs)) else - 1)"
  by (simp add: findIndex_def findIndexFrom_eq)

lemma firstUpcomingIndex_eq:
  "firstUpcomingIndex H t cs =
     int (length (takeWhile (\<lambda>c. \<not> upcoming H t c) (sortedCoupons H cs)))"
proof (cases "\<exists>c\<in>set (sortedCoupons H cs). upcoming H t c")
  case True
  then show ?thesis
    by (simp add: firstUpcomingIndex_def findIndex_eq Let_def)
next
  case False
  then have all: "takeWhile (\<lambda>c. \<not> upcoming H t c) (sortedCoupons H cs) = sortedCoupons H cs"
    by (simp add: takeWhile_eq_all_conv)
  have none: "findIndex (upcoming H t) (sortedCoupons H cs) = - 1"
    using False by (simp add: findIndex_eq)
  show ?thesis
    unfolding firstUpcomingIndex_def Let_def none all by simp
qed

lemma mset_insertBy: "mset (insertBy cmp x xs) = add_mset x (mset xs)"
  by (induction xs) auto

lemma mset_arraySort: "mset (arraySort cmp xs) = mset xs"
  by (induction xs) (auto simp: mset_insertBy)

lemma mset_sortedCoupons: "mset (sortedCoupons H cs) = mset cs"
  by (simp add: sortedCoupons_def mset_arraySort)

lemma length_sortedCoupons: "length (sortedCoupons H cs) = length cs"
  using mset_sortedCoupons [of H cs] by (metis size_mset)

lemma set_sortedCoupons: "set (sortedCoupons H cs) = set cs"
  using mset_sortedCoupons [of H cs] by (metis set_mset_mset)

lemma firstUpcomingIndex_bounds:
  "0 \<le> firstUpcomingIndex H t cs \<and> firstUpcomingIndex H t cs \<le> int (length cs)"
  using length_takeWhile_le [of "\<lambda>c. \<not> upcoming H t c" "sortedCoupons H cs"]
  by (simp add: firstUpcomingIndex_eq length_sortedCoupons)

lemma startIndex_bounds:
  "0 \<le> startIndex H t cs \<and> startIndex H t cs \<le> endIndex H t cs
     \<and> endIndex H t cs \<le> int (length cs)"
  using firstUpcomingIndex_bounds [of H t cs]
  by (auto simp: startIndex_def endIndex_def length_sortedCoupons)

lemma slice_in_range:
  "0 \<le> s \<Longrightarrow> s \<le> e \<Longrightarrow> e \<le> int (length xs) \<Longrightarrow>
     slice xs s e = take (nat (e - s)) (drop (nat s) xs)"
  by (simp add: slice_def Let_def min_def)

lemma selectedCoupons_eq:
  "selectedCoupons H t cs =
     take (nat (endIndex H t cs - startIndex H t cs))
       (drop (nat (startIndex H t cs)) (sortedCoupons H cs))"
  using startIndex_bounds [of H t cs]
  by (simp add: selectedCoupons_def slice_in_range length_sortedCoupons)

lemma length_selectedCoupons:
  "length (selectedCoupons H t cs) = nat (endIndex H t cs - startIndex H t cs)"
  using startIndex_bounds [of H t cs]
  by (simp add: selectedCoupons_eq length_sortedCoupons) linarith

lemma length_convertMOEXData:
  "length (convertMOEXData H t cs) = nat (endIndex H t cs - startIndex H t cs)"
proof (cases "cs = []")
  case True
  then show ?thesis
    using startIndex_bounds [of H t cs] by (simp add: convertMOEXData_locals)
next
  case False
  then show ?thesis
    by (simp add: convertMOEXData_locals length_selectedCoupons)
qed

subsection \<open>The sorted copy is chronological when every date parses\<close>

lemma set_insertBy: "set (insertBy cmp x xs) = insert x (set xs)"
  using mset_insertBy [of cmp x xs] by (metis set_mset_mset set_mset_add_mset_insert)

lemma chronological_insertBy:
  assumes "parse H (coupondate x) \<noteq> None" "allParse H ys" "chronological H ys"
  shows "chronological H (insertBy (byDate H) x ys)"
  using assms
proof (induction ys)
  case Nil
  then show ?case by (simp add: chronological_def)
next
  case (Cons y ys)
  obtain tx where tx: "parse H (coupondate x) = Some tx"
    using Cons.prems(1) by blast
  obtain ty where ty: "parse H (coupondate y) = Some ty"
    using Cons.prems(2) by (auto simp: allParse_def)
  have rest: "allParse H ys" "chronological H ys"
    using Cons.prems by (auto simp: allParse_def chronological_def)
  have tail: "\<forall>z\<in>set ys. \<not> jsLt (parse H (coupondate z)) (Some ty)"
    using Cons.prems(3) by (simp add: chronological_def ty)
  show ?case
  proof (cases "positive (byDate H x y)")
    case True
    then have "ty < tx" by (simp add: positive_def byDate_def jsSub_def tx ty)
    then have "\<not> jsLt (Some tx) (Some ty)" by (simp add: jsLt_def)
    moreover have "chronological H (insertBy (byDate H) x ys)"
      using Cons.IH Cons.prems(1) rest by blast
    ultimately show ?thesis
      using True tail by (simp add: chronological_def set_insertBy tx ty)
  next
    case False
    then have le: "tx \<le> ty" by (simp add: positive_def byDate_def jsSub_def tx ty)
    have "\<forall>z\<in>set ys. \<not> jsLt (parse H (coupondate z)) (Some tx)"
    proof
      fix z assume z: "z \<in> set ys"
      then obtain tz where tz: "parse H (coupondate z) = Some tz"
        using rest(1) by (auto simp: allParse_def)
      from tail z tz have "ty \<le> tz" by (auto simp: jsLt_def)
      with le show "\<not> jsLt (parse H (coupondate z)) (Some tx)" by (simp add: jsLt_def tz)
    qed
    moreover have "\<not> jsLt (Some ty) (Some tx)" using le by (simp add: jsLt_def)
    ultimately show ?thesis
      using False Cons.prems(3) by (simp add: chronological_def tx ty)
  qed
qed

lemma chronological_sortedCoupons:
  "allParse H cs \<Longrightarrow> chronological H (sortedCoupons H cs)"
proof (induction cs)
  case Nil
  then show ?case by (simp add: sortedCoupons_def chronological_def)
next
  case (Cons c cs)
  have "allParse H (sortedCoupons H cs)"
    using Cons.prems by (simp add: allParse_def set_sortedCoupons)
  moreover have "chronological H (sortedCoupons H cs)"
    using Cons by (simp add: allParse_def)
  moreover have "parse H (coupondate c) \<noteq> None"
    using Cons.prems by (simp add: allParse_def)
  ultimately show ?case
    using chronological_insertBy [of H c "sortedCoupons H cs"]
    by (simp add: sortedCoupons_def)
qed

lemma chronological_selectedCoupons:
  "allParse H cs \<Longrightarrow> chronological H (selectedCoupons H t cs)"
  using chronological_sortedCoupons [of H cs]
  by (simp add: selectedCoupons_eq chronological_def)

text \<open>
  When every date parses, the first upcoming index is the number of records dated strictly
  before today: "at least k records before the anchor" is "at least k records in the past".
\<close>

lemma takeWhile_filter_chronological:
  assumes "chronological H s" "allParse H s"
  shows "takeWhile (\<lambda>c. \<not> upcoming H t c) s = filter (\<lambda>c. \<not> upcoming H t c) s"
  using assms
proof (induction s)
  case Nil
  then show ?case by simp
next
  case (Cons x xs)
  have rest: "chronological H xs" "allParse H xs"
    using Cons.prems by (auto simp: chronological_def allParse_def)
  show ?case
  proof (cases "upcoming H t x")
    case False
    then show ?thesis using Cons.IH rest by simp
  next
    case True
    then obtain a where a: "parse H (coupondate x) = Some a" "t \<le> a"
      by (auto simp: upcoming_def jsGe_def split: option.splits)
    have "upcoming H t y" if y: "y \<in> set xs" for y
    proof -
      obtain b where b: "parse H (coupondate y) = Some b"
        using y rest(2) by (auto simp: allParse_def)
      have "\<not> jsLt (parse H (coupondate y)) (parse H (coupondate x))"
        using Cons.prems(1) y by (simp add: chronological_def)
      then have "a \<le> b" using a b by (simp add: jsLt_def)
      then show ?thesis using a b by (simp add: upcoming_def jsGe_def)
    qed
    then have "filter (\<lambda>c. \<not> upcoming H t c) xs = []"
      by (simp add: filter_empty_conv)
    then show ?thesis using True by simp
  qed
qed

lemma firstUpcomingIndex_counts_past:
  assumes "allParse H cs"
  shows "firstUpcomingIndex H t cs
           = int (length (filter (\<lambda>c. jsLt (parse H (coupondate c)) (Some t)) cs))"
proof -
  let ?P = "\<lambda>c. \<not> upcoming H t c"
  let ?s = "sortedCoupons H cs"
  have valid: "allParse H ?s"
    using assms by (simp add: allParse_def set_sortedCoupons)
  have "takeWhile ?P ?s = filter ?P ?s"
    using chronological_sortedCoupons [OF assms] valid by (rule takeWhile_filter_chronological)
  then have "firstUpcomingIndex H t cs = int (length (filter ?P ?s))"
    by (simp add: firstUpcomingIndex_eq)
  also have "length (filter ?P ?s) = size (filter_mset ?P (mset ?s))"
    by (metis mset_filter size_mset)
  also have "\<dots> = length (filter ?P cs)"
    by (metis mset_sortedCoupons mset_filter size_mset)
  also have "filter ?P cs = filter (\<lambda>c. jsLt (parse H (coupondate c)) (Some t)) cs"
    using assms
    by (intro filter_cong) (auto simp: allParse_def upcoming_def jsGe_def jsLt_def)
  finally show ?thesis .
qed

subsection \<open>The anchor and the flags\<close>

lemma current_toCouponData:
  "current (toCouponData H t cur c) = (cur = Some (coupondate c))"
  by (auto simp: toCouponData_def getCouponStatus_def Let_def)

lemma disabled_toCouponData:
  "disabled (toCouponData H t cur c)
     = (cur \<noteq> Some (coupondate c) \<and> jsLt (parse H (coupondate c)) (Some t))"
  by (auto simp: toCouponData_def getCouponStatus_def Let_def)

lemma anchor_upcoming:
  assumes "firstUpcomingIndex H t cs < int (length cs)"
  shows "upcoming H t (sortedCoupons H cs ! nat (firstUpcomingIndex H t cs))"
  using assms nth_length_takeWhile [of "\<lambda>c. \<not> upcoming H t c" "sortedCoupons H cs"]
  by (simp add: firstUpcomingIndex_eq length_sortedCoupons)

lemma before_anchor_not_upcoming:
  assumes "j < nat (firstUpcomingIndex H t cs)"
  shows "\<not> upcoming H t (sortedCoupons H cs ! j)"
proof -
  let ?P = "\<lambda>c. \<not> upcoming H t c"
  let ?s = "sortedCoupons H cs"
  from assms have j: "j < length (takeWhile ?P ?s)"
    by (simp add: firstUpcomingIndex_eq)
  then have "takeWhile ?P ?s ! j = ?s ! j"
    by (rule takeWhile_nth)
  moreover have "takeWhile ?P ?s ! j \<in> set (takeWhile ?P ?s)"
    using j by simp
  ultimately show ?thesis
    by (metis set_takeWhileD)
qed

lemma no_anchor_none_upcoming:
  assumes "firstUpcomingIndex H t cs = int (length cs)"
  shows "\<forall>c\<in>set cs. \<not> upcoming H t c"
proof -
  let ?P = "\<lambda>c. \<not> upcoming H t c"
  let ?s = "sortedCoupons H cs"
  from assms have "length (takeWhile ?P ?s) = length ?s"
    by (simp add: firstUpcomingIndex_eq length_sortedCoupons)
  then have "takeWhile ?P ?s = ?s"
    by (metis takeWhile_eq_take take_all order_refl)
  then have "\<forall>c\<in>set ?s. ?P c"
    by (metis set_takeWhileD)
  then show ?thesis by (simp add: set_sortedCoupons)
qed

lemma currentCouponDate_eq:
  "currentCouponDate H t cs =
     (if firstUpcomingIndex H t cs < int (length cs)
      then Some (coupondate (sortedCoupons H cs ! nat (firstUpcomingIndex H t cs)))
      else None)"
  by (simp add: currentCouponDate_def length_sortedCoupons)

lemma anchor_in_window:
  assumes "firstUpcomingIndex H t cs < int (length cs)"
  shows "nat (firstUpcomingIndex H t cs - startIndex H t cs) < length (selectedCoupons H t cs)"
    and "selectedCoupons H t cs ! nat (firstUpcomingIndex H t cs - startIndex H t cs)
           = sortedCoupons H cs ! nat (firstUpcomingIndex H t cs)"
proof -
  let ?f = "firstUpcomingIndex H t cs"
  let ?a = "startIndex H t cs"
  let ?e = "endIndex H t cs"
  have f: "0 \<le> ?f" using firstUpcomingIndex_bounds [of H t cs] by simp
  have a: "0 \<le> ?a" "?a \<le> ?f" using f by (auto simp: startIndex_def)
  have e: "?f < ?e" "?e \<le> int (length cs)"
    using assms by (auto simp: endIndex_def length_sortedCoupons)
  show 1: "nat (?f - ?a) < length (selectedCoupons H t cs)"
    using a e by (simp add: length_selectedCoupons)
  have "selectedCoupons H t cs ! nat (?f - ?a)
          = drop (nat ?a) (sortedCoupons H cs) ! nat (?f - ?a)"
    using a e by (simp add: selectedCoupons_eq)
  also have "\<dots> = sortedCoupons H cs ! (nat ?a + nat (?f - ?a))"
    using a e by (simp add: length_sortedCoupons)
  also have "nat ?a + nat (?f - ?a) = nat ?f"
    using a by simp
  finally show "selectedCoupons H t cs ! nat (?f - ?a) = sortedCoupons H cs ! nat ?f" .
qed

lemma filter_key_empty:
  "g a \<notin> g ` set xs \<Longrightarrow> filter (\<lambda>c. g a = g c) xs = []"
  by (auto simp: filter_empty_conv)

lemma count_key_distinct:
  "distinct (map g xs) \<Longrightarrow> a \<in> set xs \<Longrightarrow> length (filter (\<lambda>c. g a = g c) xs) = 1"
proof (induction xs)
  case Nil
  then show ?case by simp
next
  case (Cons x xs)
  show ?case
  proof (cases "g a = g x")
    case True
    then have "g a \<notin> g ` set xs" using Cons.prems(1) by simp
    then show ?thesis using True by (simp add: filter_key_empty)
  next
    case False
    then have "a \<in> set xs" using Cons.prems(2) by auto
    then show ?thesis using False Cons by simp
  qed
qed

lemma distinct_dates_sortedCoupons:
  "distinct (map coupondate cs) \<Longrightarrow> distinct (map coupondate (sortedCoupons H cs))"
proof -
  have "mset (map coupondate (sortedCoupons H cs)) = mset (map coupondate cs)"
    by (simp add: mset_sortedCoupons)
  then show "distinct (map coupondate cs) \<Longrightarrow> distinct (map coupondate (sortedCoupons H cs))"
    by (metis mset_eq_imp_distinct_iff)
qed

lemma distinct_dates_selectedCoupons:
  "distinct (map coupondate cs) \<Longrightarrow> distinct (map coupondate (selectedCoupons H t cs))"
  using distinct_dates_sortedCoupons [of cs H]
  by (simp add: selectedCoupons_eq take_map [symmetric] drop_map [symmetric]
      del: take_map drop_map)

lemma convertMOEXData_map:
  "convertMOEXData H t cs
     = map (toCouponData H t (currentCouponDate H t cs)) (selectedCoupons H t cs)"
proof -
  have "selectedCoupons H t [] = []"
    by (simp add: selectedCoupons_eq sortedCoupons_def)
  then show ?thesis
    by (cases "cs = []") (simp_all add: convertMOEXData_locals)
qed

lemma filter_current:
  "filter current (convertMOEXData H t cs)
     = map (toCouponData H t (currentCouponDate H t cs))
         (filter (\<lambda>c. currentCouponDate H t cs = Some (coupondate c)) (selectedCoupons H t cs))"
  by (simp add: convertMOEXData_map filter_map o_def current_toCouponData)

subsection \<open>Entries\<close>

lemma paymentDate_toCouponData:
  "paymentDate (toCouponData H t cur c) = formatDate H (coupondate c)"
  by (simp add: toCouponData_def Let_def)

lemma formatDate_unparseable:
  "parse H d = None \<Longrightarrow> formatDate H d = ''NaN.NaN.NaN''"
  by (simp add: formatDate_def Let_def numToString_def padStart_def)

subsection \<open>The legacy script\<close>

lemma convertMOEXData_legacy_map:
  "convertMOEXData_legacy H t cs =
     map (toCouponData_legacy H t (currentCouponDate H t cs))
       (slice (sortedCoupons H cs) (startIndex H t cs)
          (min (int (length cs)) (firstUpcomingIndex H t cs + 3)))"
proof (cases "cs = []")
  case True
  then show ?thesis
    by (simp add: convertMOEXData_legacy_def sortedCoupons_def slice_def)
next
  case False
  then show ?thesis
    by (simp add: convertMOEXData_legacy_def Let_def currentCouponDate_def
        startIndex_def firstUpcomingIndex_def sortedCoupons_def mset_arraySort
        length_sortedCoupons [unfolded sortedCoupons_def])
qed

lemma toCouponData_legacy_truthy:
  "truthy (valueprc c) \<Longrightarrow> truthy (value_rub c) \<Longrightarrow>
     toCouponData_legacy H t cur c = toCouponData H t cur c"
  by (simp add: toCouponData_legacy_def toCouponData_def)

subsection \<open>Ten records\<close>

lemma chronological_nth_le:
  assumes "chronological H s" "i < j" "j < length s"
    and "parse H (coupondate (s ! i)) = Some a" "parse H (coupondate (s ! j)) = Some b"
  shows "a \<le> b"
proof -
  have "\<not> jsLt (parse H (coupondate (s ! j))) (parse H (coupondate (s ! i)))"
    using assms(1-3) unfolding chronological_def by (rule sorted_wrt_nth_less)
  then show ?thesis using assms(4,5) by (simp add: jsLt_def)
qed

lemma window_of_ten:
  assumes "length s = 10"
  shows "take 5 (drop 3 s) = [s ! 3, s ! 4, s ! 5, s ! 6, s ! 7]"
proof (rule nth_equalityI)
  show "length (take 5 (drop 3 s)) = length [s ! 3, s ! 4, s ! 5, s ! 6, s ! 7]"
    using assms by simp
next
  fix i assume "i < length (take 5 (drop 3 s))"
  then have "i < 5" by simp
  then have "i = 0 \<or> i = 1 \<or> i = 2 \<or> i = 3 \<or> i = 4" by arith
  then show "take 5 (drop 3 s) ! i = [s ! 3, s ! 4, s ! 5, s ! 6, s ! 7] ! i"
    using assms by auto
qed

subsection \<open>Evaluation from the sorted copy and the first upcoming index\<close>

lemma convertMOEXData_eval:
  assumes "sortedCoupons H cs = s" "firstUpcomingIndex H t cs = f"
  shows "convertMOEXData H t cs =
           map (toCouponData H t
                  (if f < int (length s) then Some (coupondate (s ! nat f)) else None))
             (slice s (max 0 (f - 2))
                (min (int (length s)) (if max 0 (f - 2) = 0 then f + 5 else f + 3)))"
  using assms
  by (auto simp: convertMOEXData_map currentCouponDate_def selectedCoupons_def
      startIndex_def endIndex_def)

lemma all_past_window:
  assumes "\<forall>c\<in>set cs. jsLt (parse H (coupondate c)) (Some t)"
  shows "firstUpcomingIndex H t cs = int (length cs)"
    and "currentCouponDate H t cs = None"
    and "convertMOEXData H t cs =
           map (toCouponData H t None) (drop (length cs - 2) (sortedCoupons H cs))"
    and "\<forall>e\<in>set (convertMOEXData H t cs). \<not> current e \<and> disabled e"
proof -
  let ?s = "sortedCoupons H cs"
  have "\<forall>c\<in>set ?s. \<not> upcoming H t c"
    using assms by (auto simp: set_sortedCoupons upcoming_def jsGe_def jsLt_def split: option.splits)
  then have all: "takeWhile (\<lambda>c. \<not> upcoming H t c) ?s = ?s"
    by (simp add: takeWhile_eq_all_conv)
  show f: "firstUpcomingIndex H t cs = int (length cs)"
    unfolding firstUpcomingIndex_eq all by (simp add: length_sortedCoupons)
  then show cur: "currentCouponDate H t cs = None"
    by (simp add: currentCouponDate_eq)
  have "startIndex H t cs = int (length cs - 2)" "endIndex H t cs = int (length cs)"
    using f by (auto simp: startIndex_def endIndex_def length_sortedCoupons)
  then have W: "selectedCoupons H t cs = drop (length cs - 2) ?s"
    by (simp add: selectedCoupons_eq length_sortedCoupons)
  then show out: "convertMOEXData H t cs = map (toCouponData H t None) (drop (length cs - 2) ?s)"
    by (simp add: convertMOEXData_map cur)
  have "set (drop (length cs - 2) ?s) \<subseteq> set cs"
    using set_drop_subset set_sortedCoupons by metis
  then show "\<forall>e\<in>set (convertMOEXData H t cs). \<not> current e \<and> disabled e"
    using assms by (auto simp: out current_toCouponData disabled_toCouponData)
qed

section \<open>The sample host and inputs, evaluated\<close>

lemma parse_utcHost:
  "parse utcHost ''2024-01-15'' = Some 1705276800000"
  "parse utcHost ''2024-02-15'' = Some 1707955200000"
  "parse utcHost ''2024-03-15'' = Some 1710460800000"
  "parse utcHost ''2024-04-15'' = Some 1713139200000"
  "parse utcHost ''2024-05-15'' = Some 1715731200000"
  "parse utcHost ''2024-06-15'' = Some 1718409600000"
  "parse utcHost ''2024-07-15'' = Some 1721001600000"
  "parse utcHost ''2024-08-15'' = Some 1723680000000"
  "parse utcHost ''2024-09-15'' = Some 1726358400000"
  "parse utcHost ''2024-10-15'' = Some 1728950400000"
  "parse utcHost ''garbage'' = None"
  by (simp_all add: utcHost_def calendar_def)

lemma fields_utcHost:
  "getDate utcHost t = fst (calendarRow t)"
  "getMonth utcHost t = fst (snd (calendarRow t))"
  "getFullYear utcHost t = snd (snd (calendarRow t))"
  by (simp_all add: utcHost_def)

lemma calendarRow_samples:
  "calendarRow 1705276800000 = (15, 0, 2024)"
  "calendarRow 1707955200000 = (15, 1, 2024)"
  "calendarRow 1710460800000 = (15, 2, 2024)"
  "calendarRow 1713139200000 = (15, 3, 2024)"
  "calendarRow 1715731200000 = (15, 4, 2024)"
  "calendarRow 1718409600000 = (15, 5, 2024)"
  "calendarRow 1721001600000 = (15, 6, 2024)"
  "calendarRow 1723680000000 = (15, 7, 2024)"
  "calendarRow 1726358400000 = (15, 8, 2024)"
  "calendarRow 1728950400000 = (15, 9, 2024)"
  by (simp_all add: calendarRow_def calendar_def)

lemma show_samples:
  "showInt 1 = ''1''" "showInt 2 = ''2''" "showInt 3 = ''3''" "showInt 4 = ''4''"
  "showInt 5 = ''5''" "showInt 6 = ''6''" "showInt 7 = ''7''" "showInt 8 = ''8''"
  "showInt 9 = ''9''" "showInt 10 = ''10''" "showInt 15 = ''15''" "showInt 35 = ''35''"
  "showInt 2024 = ''2024''"
  by (simp_all add: showInt_def showNat.simps digitChar_def)

lemma formatDate_utcHost:
  "formatDate utcHost ''2024-01-15'' = ''15.01.2024''"
  "formatDate utcHost ''2024-02-15'' = ''15.02.2024''"
  "formatDate utcHost ''2024-03-15'' = ''15.03.2024''"
  "formatDate utcHost ''2024-04-15'' = ''15.04.2024''"
  "formatDate utcHost ''2024-05-15'' = ''15.05.2024''"
  "formatDate utcHost ''2024-06-15'' = ''15.06.2024''"
  "formatDate utcHost ''2024-07-15'' = ''15.07.2024''"
  "formatDate utcHost ''2024-08-15'' = ''15.08.2024''"
  "formatDate utcHost ''2024-09-15'' = ''15.09.2024''"
  "formatDate utcHost ''2024-10-15'' = ''15.10.2024''"
  "formatDate utcHost ''garbage'' = ''NaN.NaN.NaN''"
  by (simp_all add: formatDate_def parse_utcHost fields_utcHost calendarRow_samples numToString_def show_samples padStart_def)

lemmas sort_simps = sortedCoupons_def byDate_def jsSub_def positive_def couponOn_def parse_utcHost

lemmas find_simps = firstUpcomingIndex_def findIndex_def upcoming_def jsGe_def couponOn_def
  parse_utcHost dec2023_def jun2024_def jan2025_def

lemma sorted_tenMonths: "sortedCoupons utcHost tenMonths = tenMonths"
  by (simp add: tenMonths_def sort_simps)

lemma sorted_aprilToSeptember: "sortedCoupons utcHost aprilToSeptember = aprilToSeptember"
  by (simp add: aprilToSeptember_def sort_simps)

lemma sorted_aprilToOctober: "sortedCoupons utcHost aprilToOctober = aprilToOctober"
  by (simp add: aprilToOctober_def sort_simps)

lemma sorted_mayToOctober: "sortedCoupons utcHost mayToOctober = mayToOctober"
  by (simp add: mayToOctober_def sort_simps)

lemma first_tenMonths:
  "firstUpcomingIndex utcHost dec2023 tenMonths = 0"
  "firstUpcomingIndex utcHost jun2024 tenMonths = 5"
  "firstUpcomingIndex utcHost jan2025 tenMonths = 10"
  unfolding firstUpcomingIndex_def sorted_tenMonths
  by (simp_all add: tenMonths_def find_simps)

lemma first_aprilToSeptember: "firstUpcomingIndex utcHost jun2024 aprilToSeptember = 2"
  unfolding firstUpcomingIndex_def sorted_aprilToSeptember
  by (simp add: aprilToSeptember_def find_simps)

lemma first_aprilToOctober: "firstUpcomingIndex utcHost jun2024 aprilToOctober = 2"
  unfolding firstUpcomingIndex_def sorted_aprilToOctober
  by (simp add: aprilToOctober_def find_simps)

lemma first_mayToOctober: "firstUpcomingIndex utcHost jun2024 mayToOctober = 1"
  unfolding firstUpcomingIndex_def sorted_mayToOctober
  by (simp add: mayToOctober_def find_simps)

lemma length_samples:
  "length tenMonths = 10" "length aprilToSeptember = 6" "length aprilToOctober = 7"
  "length mayToOctober = 6"
  by (simp_all add: tenMonths_def aprilToSeptember_def aprilToOctober_def mayToOctober_def)

subsection \<open>Outputs on the samples\<close>

lemma sorted_more:
  "sortedCoupons utcHost januaryOnly = januaryOnly"
  "sortedCoupons utcHost julyTwice = julyTwice"
  "sortedCoupons utcHost garbageOnly = garbageOnly"
  "sortedCoupons utcHost garbageThenJanuary = garbageThenJanuary"
  "sortedCoupons utcHost marchGarbageJanuary = marchGarbageJanuary"
  "sortedCoupons utcHost julyNoRate = julyNoRate"
  by (simp_all add: januaryOnly_def julyTwice_def garbageOnly_def garbageThenJanuary_def
      marchGarbageJanuary_def julyNoRate_def sort_simps)

lemma first_januaryOnly: "firstUpcomingIndex utcHost jun2024 januaryOnly = 1"
  unfolding firstUpcomingIndex_def sorted_more by (simp add: januaryOnly_def find_simps)

lemma first_julyTwice: "firstUpcomingIndex utcHost jun2024 julyTwice = 0"
  unfolding firstUpcomingIndex_def sorted_more by (simp add: julyTwice_def find_simps)

lemma first_garbageOnly: "firstUpcomingIndex utcHost dec2023 garbageOnly = 1"
  unfolding firstUpcomingIndex_def sorted_more by (simp add: garbageOnly_def find_simps)

lemma first_marchGarbageJanuary: "firstUpcomingIndex utcHost dec2023 marchGarbageJanuary = 0"
  unfolding firstUpcomingIndex_def sorted_more by (simp add: marchGarbageJanuary_def find_simps)

lemma first_julyNoRate: "firstUpcomingIndex utcHost jun2024 julyNoRate = 0"
  unfolding firstUpcomingIndex_def sorted_more by (simp add: julyNoRate_def find_simps)

lemma out_tenMonths_jun:
  "convertMOEXData utcHost jun2024 tenMonths =
     map (toCouponData utcHost jun2024 (Some ''2024-06-15''))
       (map couponOn [''2024-04-15'', ''2024-05-15'', ''2024-06-15'', ''2024-07-15'', ''2024-08-15''])"
  unfolding convertMOEXData_eval [OF sorted_tenMonths first_tenMonths(2)]
  by (simp add: tenMonths_def slice_def couponOn_def)

lemma out_tenMonths_jan:
  "convertMOEXData utcHost jan2025 tenMonths =
     map (toCouponData utcHost jan2025 None) (map couponOn [''2024-09-15'', ''2024-10-15''])"
  unfolding convertMOEXData_eval [OF sorted_tenMonths first_tenMonths(3)]
  by (simp add: tenMonths_def slice_def couponOn_def)

lemma out_tenMonths_dec:
  "convertMOEXData utcHost dec2023 tenMonths =
     map (toCouponData utcHost dec2023 (Some ''2024-01-15''))
       (map couponOn [''2024-01-15'', ''2024-02-15'', ''2024-03-15'', ''2024-04-15'', ''2024-05-15''])"
  unfolding convertMOEXData_eval [OF sorted_tenMonths first_tenMonths(1)]
  by (simp add: tenMonths_def slice_def couponOn_def)

lemma out_januaryOnly:
  "convertMOEXData utcHost jun2024 januaryOnly = [toCouponData utcHost jun2024 None (couponOn ''2024-01-15'')]"
  unfolding convertMOEXData_eval [OF sorted_more(1) first_januaryOnly]
  by (simp add: januaryOnly_def slice_def)

lemma out_julyTwice:
  "convertMOEXData utcHost jun2024 julyTwice =
     map (toCouponData utcHost jun2024 (Some ''2024-07-15'')) julyTwice"
  unfolding convertMOEXData_eval [OF sorted_more(2) first_julyTwice]
  by (simp add: julyTwice_def slice_def couponOn_def)

lemma out_garbageOnly:
  "convertMOEXData utcHost dec2023 garbageOnly = [toCouponData utcHost dec2023 None (couponOn ''garbage'')]"
  unfolding convertMOEXData_eval [OF sorted_more(3) first_garbageOnly]
  by (simp add: garbageOnly_def slice_def)

lemma out_marchGarbageJanuary:
  "convertMOEXData utcHost dec2023 marchGarbageJanuary =
     map (toCouponData utcHost dec2023 (Some ''2024-03-15'')) marchGarbageJanuary"
  unfolding convertMOEXData_eval [OF sorted_more(5) first_marchGarbageJanuary]
  by (simp add: marchGarbageJanuary_def slice_def couponOn_def)

lemma out_julyNoRate:
  "convertMOEXData utcHost jun2024 julyNoRate =
     map (toCouponData utcHost jun2024 (Some ''2024-07-15'')) julyNoRate"
  unfolding convertMOEXData_eval [OF sorted_more(6) first_julyNoRate]
  by (simp add: julyNoRate_def slice_def)

lemmas entry_simps = current_toCouponData disabled_toCouponData paymentDate_toCouponData
  couponOn_def parse_utcHost formatDate_utcHost jsLt_def dec2023_def jun2024_def jan2025_def

lemma distinct_tenMonths: "distinct (map coupondate tenMonths)"
  by (simp add: tenMonths_def couponOn_def)

lemma allParse_tenMonths: "allParse utcHost tenMonths"
  by (simp add: allParse_def tenMonths_def couponOn_def parse_utcHost)

lemma selected_tenMonths_jun:
  "selectedCoupons utcHost jun2024 tenMonths =
     map couponOn [''2024-04-15'', ''2024-05-15'', ''2024-06-15'', ''2024-07-15'', ''2024-08-15'']"
  unfolding selectedCoupons_def startIndex_def endIndex_def sorted_tenMonths first_tenMonths
  by (simp add: tenMonths_def slice_def)

lemma selected_tenMonths_jan:
  "selectedCoupons utcHost jan2025 tenMonths = map couponOn [''2024-09-15'', ''2024-10-15'']"
  unfolding selectedCoupons_def startIndex_def endIndex_def sorted_tenMonths first_tenMonths
  by (simp add: tenMonths_def slice_def)

section \<open>The claims\<close>

subsection \<open>Five entries inside the series\<close>

text \<open>
  Claim C1, amended. For every input in which an anchor exists with at least three records
  before it and at least three records after it in sorted order, the window returned by
  \<open>convertMOEXData\<close> has exactly five entries.
\<close>

theorem window_five_inside:
  assumes "3 \<le> firstUpcomingIndex H t cs" "firstUpcomingIndex H t cs + 3 < int (length cs)"
  shows "length (convertMOEXData H t cs) = 5"
  using assms
  by (simp add: length_convertMOEXData startIndex_def endIndex_def length_sortedCoupons)

text \<open>
  The amended claim on ten monthly coupons seen from 1 June 2024: the anchor is at index 5.
\<close>

theorem window_five_inside_witness:
  "3 \<le> firstUpcomingIndex utcHost jun2024 tenMonths
   \<and> firstUpcomingIndex utcHost jun2024 tenMonths + 3 < int (length tenMonths)
   \<and> length (convertMOEXData utcHost jun2024 tenMonths) = 5"
  using window_five_inside [of utcHost jun2024 tenMonths] by (simp add: first_tenMonths length_samples)

text \<open>
  Claim C1 as stated fails: six coupons from April to September seen from 1 June 2024 have
  the anchor (June) at index 2, with two records before it and three after it, and the
  window has six entries.
\<close>

theorem window_two_prior_six:
  "aprilToSeptember \<noteq> []
   \<and> firstUpcomingIndex utcHost jun2024 aprilToSeptember = 2
   \<and> int (length aprilToSeptember) - firstUpcomingIndex utcHost jun2024 aprilToSeptember - 1 = 3
   \<and> length (convertMOEXData utcHost jun2024 aprilToSeptember) = 6"
  by (simp add: length_convertMOEXData startIndex_def endIndex_def first_aprilToSeptember
      length_sortedCoupons length_samples) (simp add: aprilToSeptember_def)

subsection \<open>When the window exceeds five entries\<close>

text \<open>
  Claim C2, amended. The window has at most five entries whenever the first upcoming index
  is neither 1 nor 2 (anchor at index 0, anchor at index 3 or later, or no anchor). The
  forward side is extended, to five past the first upcoming index, exactly when that index
  is at most 2, whether or not an anchor exists.
\<close>

theorem window_over_five_only_near_start:
  "(firstUpcomingIndex H t cs \<noteq> 1 \<and> firstUpcomingIndex H t cs \<noteq> 2
      \<longrightarrow> length (convertMOEXData H t cs) \<le> 5)
   \<and> endIndex H t cs = min (int (length cs))
        (if firstUpcomingIndex H t cs \<le> 2 then firstUpcomingIndex H t cs + 5
         else firstUpcomingIndex H t cs + 3)"
  using firstUpcomingIndex_bounds [of H t cs]
  by (auto simp: length_convertMOEXData startIndex_def endIndex_def length_sortedCoupons)

text \<open>
  The amended claim on ten monthly coupons seen from 1 June 2024.
\<close>

theorem window_over_five_only_near_start_witness:
  "firstUpcomingIndex utcHost jun2024 tenMonths \<noteq> 1
   \<and> firstUpcomingIndex utcHost jun2024 tenMonths \<noteq> 2
   \<and> length (convertMOEXData utcHost jun2024 tenMonths) \<le> 5"
  using window_over_five_only_near_start [of utcHost jun2024 tenMonths] by (simp add: first_tenMonths)

text \<open>
  Claim C2 as stated fails: six coupons from May to October seen from 1 June 2024 have an
  anchor (June, at index 1), and the window has six entries.
\<close>

theorem window_six_with_anchor:
  "firstUpcomingIndex utcHost jun2024 mayToOctober < int (length mayToOctober)
   \<and> length (convertMOEXData utcHost jun2024 mayToOctober) = 6"
  by (simp add: length_convertMOEXData startIndex_def endIndex_def first_mayToOctober
      length_sortedCoupons length_samples)

subsection \<open>The current entry\<close>

text \<open>
  Claim C3, amended. When the date strings of the input are pairwise distinct and an anchor
  exists, exactly one entry of the window has \<open>current\<close> set: the entry of the anchor,
  which is the first record of the sorted copy dated on or after today. When no anchor exists
  no entry has \<open>current\<close> set, also in a non-empty window. No entry has
  \<open>current\<close> set only if no record of the window is dated on or after today.
\<close>

theorem current_entry_unique:
  "(distinct (map coupondate cs) \<and> firstUpcomingIndex H t cs < int (length cs) \<longrightarrow>
      length (filter current (convertMOEXData H t cs)) = 1
      \<and> current (convertMOEXData H t cs ! nat (firstUpcomingIndex H t cs - startIndex H t cs))
      \<and> upcoming H t (sortedCoupons H cs ! nat (firstUpcomingIndex H t cs))
      \<and> (\<forall>j < nat (firstUpcomingIndex H t cs). \<not> upcoming H t (sortedCoupons H cs ! j)))
   \<and> (firstUpcomingIndex H t cs = int (length cs) \<longrightarrow>
      (\<forall>e\<in>set (convertMOEXData H t cs). \<not> current e))
   \<and> ((\<forall>e\<in>set (convertMOEXData H t cs). \<not> current e) \<longrightarrow>
      (\<forall>c\<in>set (selectedCoupons H t cs). \<not> upcoming H t c))"
proof (intro conjI impI)
  let ?f = "firstUpcomingIndex H t cs"
  let ?W = "selectedCoupons H t cs"
  let ?a = "sortedCoupons H cs ! nat ?f"
  let ?i = "nat (?f - startIndex H t cs)"
  {
    assume h: "distinct (map coupondate cs) \<and> ?f < int (length cs)"
    then have cur: "currentCouponDate H t cs = Some (coupondate ?a)"
      by (simp add: currentCouponDate_eq)
    have i: "?i < length ?W" "?W ! ?i = ?a"
      using h anchor_in_window [of H t cs] by simp_all
    then have mem: "?a \<in> set ?W" by (metis nth_mem)
    have "length (filter (\<lambda>c. coupondate ?a = coupondate c) ?W) = 1"
      using h mem by (simp add: count_key_distinct distinct_dates_selectedCoupons)
    then show "length (filter current (convertMOEXData H t cs)) = 1"
      by (simp add: filter_current cur)
    show "current (convertMOEXData H t cs ! ?i)"
      using i by (simp add: convertMOEXData_map current_toCouponData cur)
    show "upcoming H t ?a"
      using h by (simp add: anchor_upcoming)
    show "\<forall>j < nat ?f. \<not> upcoming H t (sortedCoupons H cs ! j)"
      by (simp add: before_anchor_not_upcoming)
  }
  {
    assume "?f = int (length cs)"
    then have "currentCouponDate H t cs = None"
      by (simp add: currentCouponDate_eq)
    then show "\<forall>e\<in>set (convertMOEXData H t cs). \<not> current e"
      by (simp add: convertMOEXData_map current_toCouponData)
  }
  {
    assume none: "\<forall>e\<in>set (convertMOEXData H t cs). \<not> current e"
    have "\<not> ?f < int (length cs)"
    proof
      assume lt: "?f < int (length cs)"
      then have "currentCouponDate H t cs = Some (coupondate ?a)"
        by (simp add: currentCouponDate_eq)
      moreover have "?i < length ?W" "?W ! ?i = ?a"
        using lt anchor_in_window [of H t cs] by simp_all
      ultimately have "current (convertMOEXData H t cs ! ?i)"
          and "?i < length (convertMOEXData H t cs)"
        by (simp_all add: convertMOEXData_map current_toCouponData)
      then show False using none by (metis nth_mem)
    qed
    then have "?f = int (length cs)"
      using firstUpcomingIndex_bounds [of H t cs] by simp
    then have "\<forall>c\<in>set cs. \<not> upcoming H t c"
      by (rule no_anchor_none_upcoming)
    moreover have "set ?W \<subseteq> set cs"
      using set_take_subset set_drop_subset set_sortedCoupons
      by (metis selectedCoupons_eq subset_trans)
    ultimately show "\<forall>c\<in>set ?W. \<not> upcoming H t c" by blast
  }
qed

text \<open>
  The amended claim on ten monthly coupons: seen from 1 June 2024 exactly one entry, the third
  of the window, is current; seen from 1 January 2025 none is, and the October coupon of
  the window is not upcoming.
\<close>

theorem current_entry_unique_witness:
  "distinct (map coupondate tenMonths)
   \<and> firstUpcomingIndex utcHost jun2024 tenMonths < int (length tenMonths)
   \<and> length (filter current (convertMOEXData utcHost jun2024 tenMonths)) = 1
   \<and> current (convertMOEXData utcHost jun2024 tenMonths ! 2)
   \<and> firstUpcomingIndex utcHost jan2025 tenMonths = int (length tenMonths)
   \<and> filter current (convertMOEXData utcHost jan2025 tenMonths) = []
   \<and> \<not> upcoming utcHost jan2025 (couponOn ''2024-10-15'')"
proof -
  have a: "distinct (map coupondate tenMonths) \<and>
      firstUpcomingIndex utcHost jun2024 tenMonths < int (length tenMonths)"
    by (simp add: distinct_tenMonths first_tenMonths length_samples)
  have i: "nat (firstUpcomingIndex utcHost jun2024 tenMonths - startIndex utcHost jun2024 tenMonths) = 2"
    by (simp add: startIndex_def first_tenMonths)
  have b: "firstUpcomingIndex utcHost jan2025 tenMonths = int (length tenMonths)"
    by (simp add: first_tenMonths length_samples)
  have m: "couponOn ''2024-10-15'' \<in> set (selectedCoupons utcHost jan2025 tenMonths)"
    unfolding selected_tenMonths_jan by simp
  have none: "\<forall>e\<in>set (convertMOEXData utcHost jan2025 tenMonths). \<not> current e"
    using b current_entry_unique [where H = utcHost and t = jan2025 and cs = tenMonths]
    by blast
  then have "\<forall>c\<in>set (selectedCoupons utcHost jan2025 tenMonths). \<not> upcoming utcHost jan2025 c"
    using current_entry_unique [where H = utcHost and t = jan2025 and cs = tenMonths]
    by blast
  then have u: "\<not> upcoming utcHost jan2025 (couponOn ''2024-10-15'')"
    using m by blast
  have one: "length (filter current (convertMOEXData utcHost jun2024 tenMonths)) = 1
      \<and> current (convertMOEXData utcHost jun2024 tenMonths ! 2)"
    using a i current_entry_unique [where H = utcHost and t = jun2024 and cs = tenMonths]
    by simp
  show ?thesis
    using a b one u none by (simp add: filter_empty_conv)
qed

text \<open>
  Claim C3 as stated fails: a single January coupon seen from 1 June 2024 gives a non-empty
  window with no current entry, and two coupons of the same July date both come out current.
\<close>

theorem current_count_not_one:
  "convertMOEXData utcHost jun2024 januaryOnly \<noteq> []
   \<and> length (filter current (convertMOEXData utcHost jun2024 januaryOnly)) = 0
   \<and> length (filter current (convertMOEXData utcHost jun2024 julyTwice)) = 2"
  unfolding out_januaryOnly out_julyTwice
  by (simp add: julyTwice_def entry_simps)

subsection \<open>All dates in the past\<close>

text \<open>
  Claim C4 at ten monthly coupons that are all before 1 January 2025: the first upcoming
  index is the length, \<open>currentCouponDate\<close> is none and no entry is current, but the
  window holds the last two records (September and October), not the last five.
\<close>

theorem all_past_returns_two:
  "firstUpcomingIndex utcHost jan2025 tenMonths = int (length tenMonths)
   \<and> currentCouponDate utcHost jan2025 tenMonths = None
   \<and> map paymentDate (convertMOEXData utcHost jan2025 tenMonths) = [''15.09.2024'', ''15.10.2024'']
   \<and> map current (convertMOEXData utcHost jan2025 tenMonths) = [False, False]"
  unfolding out_tenMonths_jan first_tenMonths length_samples currentCouponDate_eq
  by (simp add: entry_simps)

subsection \<open>Ten monthly records\<close>

text \<open>
  Claim C5, amended. For ten coupons with parseable, pairwise distinct date strings where
  today falls strictly between record 4 and record 5 of the sorted copy, the window is
  records 3 to 7 (five entries): record 5 is current, records 3 and 4 are disabled, records
  6 and 7 have neither flag.
\<close>

theorem ten_monthly_window:
  assumes len: "length cs = 10"
    and valid: "allParse H cs"
    and dist: "distinct (map coupondate cs)"
    and before: "jsLt (parse H (coupondate (sortedCoupons H cs ! 4))) (Some t)"
    and after: "jsLt (Some t) (parse H (coupondate (sortedCoupons H cs ! 5)))"
  shows "convertMOEXData H t cs =
           map (toCouponData H t (Some (coupondate (sortedCoupons H cs ! 5))))
             [sortedCoupons H cs ! 3, sortedCoupons H cs ! 4, sortedCoupons H cs ! 5,
              sortedCoupons H cs ! 6, sortedCoupons H cs ! 7]
         \<and> map current (convertMOEXData H t cs) = [False, False, True, False, False]
         \<and> map disabled (convertMOEXData H t cs) = [True, True, False, False, False]"
proof -
  let ?s = "sortedCoupons H cs"
  let ?tm = "\<lambda>i. parse H (coupondate (?s ! i))"
  have n: "length ?s = 10" using len by (simp add: length_sortedCoupons)
  have chron: "chronological H ?s" using valid by (rule chronological_sortedCoupons)
  have parses: "\<exists>a. ?tm i = Some a" if "i < 10" for i
  proof -
    have "?s ! i \<in> set cs" using that n by (metis nth_mem set_sortedCoupons)
    then show ?thesis using valid by (auto simp: allParse_def)
  qed
  obtain t4 where t4: "?tm 4 = Some t4" "t4 < t"
    using before by (auto simp: jsLt_def split: option.splits)
  obtain t5 where t5: "?tm 5 = Some t5" "t < t5"
    using after by (auto simp: jsLt_def split: option.splits)
  have past: "\<exists>a. ?tm i = Some a \<and> a < t" if "i \<le> 4" for i
  proof (cases "i = 4")
    case True
    then show ?thesis using t4 by simp
  next
    case False
    then have i: "i < 4" using that by simp
    then obtain a where a: "?tm i = Some a" using parses [of i] by auto
    have "a \<le> t4" using chronological_nth_le [OF chron i _ a t4(1)] n by simp
    then show ?thesis using a t4(2) by simp
  qed
  have future: "\<exists>a. ?tm i = Some a \<and> t < a" if range: "5 \<le> i" "i < 10" for i
  proof (cases "i = 5")
    case True
    then show ?thesis using t5 by simp
  next
    case False
    then have i: "5 < i" using range by simp
    obtain a where a: "?tm i = Some a" using parses [of i] range by auto
    have "t5 \<le> a" using chronological_nth_le [OF chron i _ t5(1) a] n range by simp
    then show ?thesis using a t5(2) by simp
  qed
  have "takeWhile (\<lambda>c. \<not> upcoming H t c) ?s = take 5 ?s"
  proof (rule takeWhile_eq_take_P_nth)
    fix i assume "i < 5" "i < length ?s"
    then obtain a where "?tm i = Some a" "a < t" using past [of i] by auto
    then show "\<not> upcoming H t (?s ! i)" by (simp add: upcoming_def jsGe_def)
  next
    show "\<not> \<not> upcoming H t (?s ! 5)" using t5 by (simp add: upcoming_def jsGe_def)
  qed
  then have f: "firstUpcomingIndex H t cs = 5"
    using n by (simp add: firstUpcomingIndex_eq)
  have cur: "currentCouponDate H t cs = Some (coupondate (?s ! 5))"
    using len by (simp add: currentCouponDate_eq f)
  have "startIndex H t cs = 3" "endIndex H t cs = 8"
    using n by (simp_all add: startIndex_def endIndex_def f)
  then have W: "selectedCoupons H t cs = [?s ! 3, ?s ! 4, ?s ! 5, ?s ! 6, ?s ! 7]"
    using window_of_ten [OF n] by (simp add: selectedCoupons_eq)
  have out: "convertMOEXData H t cs =
           map (toCouponData H t (Some (coupondate (?s ! 5)))) [?s ! 3, ?s ! 4, ?s ! 5, ?s ! 6, ?s ! 7]"
    by (simp only: convertMOEXData_map cur W)
  have distinct_s: "distinct (map coupondate ?s)"
    using dist by (rule distinct_dates_sortedCoupons)
  have other: "coupondate (?s ! i) \<noteq> coupondate (?s ! 5)" if "i < 10" "i \<noteq> 5" for i
  proof -
    have "(map coupondate ?s ! i = map coupondate ?s ! 5) = (i = 5)"
      using distinct_s that n by (intro nth_eq_iff_index_eq) simp_all
    then show ?thesis using that n by simp
  qed
  have d3: "jsLt (?tm 3) (Some t)" and d4: "jsLt (?tm 4) (Some t)"
    using past [of 3] past [of 4] by (auto simp: jsLt_def)
  have d5: "\<not> jsLt (?tm 5) (Some t)" and d6: "\<not> jsLt (?tm 6) (Some t)"
    and d7: "\<not> jsLt (?tm 7) (Some t)"
    using future [of 5] future [of 6] future [of 7] by (auto simp: jsLt_def)
  have o: "coupondate (?s ! 3) \<noteq> coupondate (?s ! 5)" "coupondate (?s ! 4) \<noteq> coupondate (?s ! 5)"
    "coupondate (?s ! 6) \<noteq> coupondate (?s ! 5)" "coupondate (?s ! 7) \<noteq> coupondate (?s ! 5)"
    using other [of 3] other [of 4] other [of 6] other [of 7] by simp_all
  have c: "map current (convertMOEXData H t cs) = [False, False, True, False, False]"
    unfolding out using o by (simp add: current_toCouponData eq_commute)
  have d: "map disabled (convertMOEXData H t cs) = [True, True, False, False, False]"
    unfolding out using o d3 d4 d5 d6 d7 by (simp add: disabled_toCouponData eq_commute)
  show ?thesis using out c d by simp
qed

text \<open>
  The amended claim on ten monthly coupons seen from 1 June 2024.
\<close>

theorem ten_monthly_window_witness:
  "length tenMonths = 10 \<and> distinct (map coupondate tenMonths)
   \<and> jsLt (parse utcHost (coupondate (sortedCoupons utcHost tenMonths ! 4))) (Some jun2024)
   \<and> jsLt (Some jun2024) (parse utcHost (coupondate (sortedCoupons utcHost tenMonths ! 5)))
   \<and> map current (convertMOEXData utcHost jun2024 tenMonths) = [False, False, True, False, False]
   \<and> map disabled (convertMOEXData utcHost jun2024 tenMonths) = [True, True, False, False, False]"
proof -
  have before: "jsLt (parse utcHost (coupondate (sortedCoupons utcHost tenMonths ! 4))) (Some jun2024)"
    unfolding sorted_tenMonths by (simp add: tenMonths_def entry_simps)
  have after: "jsLt (Some jun2024) (parse utcHost (coupondate (sortedCoupons utcHost tenMonths ! 5)))"
    unfolding sorted_tenMonths by (simp add: tenMonths_def entry_simps)
  have flags: "map current (convertMOEXData utcHost jun2024 tenMonths) = [False, False, True, False, False]
      \<and> map disabled (convertMOEXData utcHost jun2024 tenMonths) = [True, True, False, False, False]"
    using ten_monthly_window [OF length_samples(1) allParse_tenMonths distinct_tenMonths before after]
    by blast
  show ?thesis
    using flags before after length_samples(1) allParse_tenMonths distinct_tenMonths
    by blast
qed

text \<open>
  Claim C5 as stated fails: for ten monthly coupons seen from 1 June 2024, between record 4
  (May) and record 5 (June), the window starts at record 3 (April); record 2 (March) is not
  in it and only two entries are disabled.
\<close>

theorem ten_monthly_window_from_three:
  "length tenMonths = 10
   \<and> jsLt (parse utcHost (coupondate (sortedCoupons utcHost tenMonths ! 4))) (Some jun2024)
   \<and> jsLt (Some jun2024) (parse utcHost (coupondate (sortedCoupons utcHost tenMonths ! 5)))
   \<and> map paymentDate (convertMOEXData utcHost jun2024 tenMonths)
       = [''15.04.2024'', ''15.05.2024'', ''15.06.2024'', ''15.07.2024'', ''15.08.2024'']
   \<and> formatDate utcHost (coupondate (sortedCoupons utcHost tenMonths ! 2)) = ''15.03.2024''
   \<and> ''15.03.2024'' \<notin> set (map paymentDate (convertMOEXData utcHost jun2024 tenMonths))
   \<and> map disabled (convertMOEXData utcHost jun2024 tenMonths) = [True, True, False, False, False]"
  unfolding out_tenMonths_jun sorted_tenMonths length_samples
  by (simp add: tenMonths_def entry_simps)

subsection \<open>Unparseable dates\<close>

text \<open>
  Claim C6, amended. A record whose date string does not parse is not treated as greater
  than valid dates. The sort comparator returns \<open>NaN\<close> on every pair that contains it,
  which counts as a tie; the search predicate is false on it, so it is never the anchor; and
  its entry is neither current nor disabled and shows the date \<open>NaN.NaN.NaN\<close>.
\<close>

theorem unparseable_date_handling:
  assumes "parse H (coupondate c) = None"
  shows "byDate H c d = None \<and> byDate H d c = None
         \<and> \<not> positive (byDate H c d) \<and> \<not> positive (byDate H d c)
         \<and> \<not> upcoming H t c
         \<and> currentCouponDate H t cs \<noteq> Some (coupondate c)
         \<and> \<not> current (toCouponData H t (currentCouponDate H t cs) c)
         \<and> \<not> disabled (toCouponData H t (currentCouponDate H t cs) c)
         \<and> paymentDate (toCouponData H t (currentCouponDate H t cs) c) = ''NaN.NaN.NaN''"
proof -
  have cmp: "byDate H c d = None \<and> byDate H d c = None"
    using assms by (simp add: byDate_def jsSub_def split: option.splits)
  have up: "\<not> upcoming H t c"
    using assms by (simp add: upcoming_def jsGe_def)
  have cur: "currentCouponDate H t cs \<noteq> Some (coupondate c)"
  proof
    assume eq: "currentCouponDate H t cs = Some (coupondate c)"
    then have lt: "firstUpcomingIndex H t cs < int (length cs)"
      by (simp add: currentCouponDate_eq split: if_splits)
    with eq have "coupondate (sortedCoupons H cs ! nat (firstUpcomingIndex H t cs)) = coupondate c"
      by (simp add: currentCouponDate_eq)
    moreover have "upcoming H t (sortedCoupons H cs ! nat (firstUpcomingIndex H t cs))"
      using lt by (rule anchor_upcoming)
    ultimately show False
      using assms by (simp add: upcoming_def jsGe_def)
  qed
  have dis: "\<not> disabled (toCouponData H t (currentCouponDate H t cs) c)"
    using assms by (simp add: disabled_toCouponData jsLt_def)
  show ?thesis
    using cmp up cur dis assms
    by (simp add: positive_def current_toCouponData paymentDate_toCouponData
        formatDate_unparseable)
qed

text \<open>
  The amended claim on a coupon dated \<open>garbage\<close>.
\<close>

theorem unparseable_date_handling_witness:
  "parse utcHost (coupondate (couponOn ''garbage'')) = None
   \<and> byDate utcHost (couponOn ''garbage'') (couponOn ''2024-01-15'') = None
   \<and> \<not> upcoming utcHost dec2023 (couponOn ''garbage'')
   \<and> \<not> current (toCouponData utcHost dec2023
         (currentCouponDate utcHost dec2023 garbageThenJanuary) (couponOn ''garbage''))
   \<and> \<not> disabled (toCouponData utcHost dec2023
         (currentCouponDate utcHost dec2023 garbageThenJanuary) (couponOn ''garbage''))"
proof -
  have g: "parse utcHost (coupondate (couponOn ''garbage'')) = None"
    by (simp add: couponOn_def parse_utcHost)
  show ?thesis
    using g unparseable_date_handling [OF g, of "couponOn ''2024-01-15''" dec2023 garbageThenJanuary]
    by simp
qed

text \<open>
  Claim C6 as stated fails: a lone coupon with an unparseable date is not found by the
  search (the first upcoming index is the length, and the entry is not current), and in the
  sorted copy it stays before a valid January date.
\<close>

theorem unparseable_not_greatest:
  "parse utcHost (coupondate (couponOn ''garbage'')) = None
   \<and> firstUpcomingIndex utcHost dec2023 garbageOnly = int (length garbageOnly)
   \<and> map current (convertMOEXData utcHost dec2023 garbageOnly) = [False]
   \<and> sortedCoupons utcHost garbageThenJanuary = [couponOn ''garbage'', couponOn ''2024-01-15'']"
  unfolding out_garbageOnly first_garbageOnly sorted_more
  by (simp add: garbageOnly_def garbageThenJanuary_def entry_simps)

subsection \<open>The order of the status rules\<close>

text \<open>
  Claim C7. \<open>getCouponStatus\<close> checks its rules in order: a coupon whose date string
  equals \<open>currentCouponDate\<close> is \<open>current\<close>, whatever its date and today are, also
  when the date is today; otherwise a date before today is \<open>disabled\<close>, a date equal to
  today is \<open>upcoming\<close>, and anything else has the empty status.
\<close>

theorem getCouponStatus_order:
  "getCouponStatus H d t (Some d) = ''current''
   \<and> (cur \<noteq> Some d \<and> jsLt (parse H d) (Some t) \<longrightarrow> getCouponStatus H d t cur = ''disabled'')
   \<and> (cur \<noteq> Some d \<and> parse H d = Some t \<longrightarrow> getCouponStatus H d t cur = ''upcoming'')
   \<and> (cur \<noteq> Some d \<and> \<not> jsLt (parse H d) (Some t) \<and> parse H d \<noteq> Some t
        \<longrightarrow> getCouponStatus H d t cur = '''')"
  by (auto simp: getCouponStatus_def Let_def jsLt_def jsEq_def split: option.splits)

text \<open>
  The rules at concrete dates: 15 June 2024 seen from that very day is current when it is the
  current coupon date and upcoming when there is none.
\<close>

theorem getCouponStatus_order_witness:
  "parse utcHost ''2024-06-15'' = Some 1718409600000
   \<and> getCouponStatus utcHost ''2024-06-15'' 1718409600000 (Some ''2024-06-15'') = ''current''
   \<and> getCouponStatus utcHost ''2024-06-15'' 1718409600000 None = ''upcoming''
   \<and> jsLt (parse utcHost ''2024-05-15'') (Some jun2024)
   \<and> getCouponStatus utcHost ''2024-05-15'' jun2024 (Some ''2024-06-15'') = ''disabled''
   \<and> getCouponStatus utcHost ''2024-07-15'' jun2024 (Some ''2024-06-15'') = ''''"
proof -
  have p: "parse utcHost ''2024-06-15'' = Some 1718409600000"
    by (simp add: parse_utcHost)
  have l: "jsLt (parse utcHost ''2024-05-15'') (Some jun2024)"
    by (simp add: parse_utcHost jsLt_def jun2024_def)
  have n: "\<not> jsLt (parse utcHost ''2024-07-15'') (Some jun2024) \<and> parse utcHost ''2024-07-15'' \<noteq> Some jun2024"
    by (simp add: parse_utcHost jsLt_def jun2024_def)
  show ?thesis
    using p l n
      getCouponStatus_order [where H = utcHost and d = "''2024-06-15''" and t = 1718409600000 and cur = None]
      getCouponStatus_order [where H = utcHost and d = "''2024-05-15''" and t = jun2024 and cur = "Some ''2024-06-15''"]
      getCouponStatus_order [where H = utcHost and d = "''2024-07-15''" and t = jun2024 and cur = "Some ''2024-06-15''"]
    by simp
qed

subsection \<open>Chronological output\<close>

text \<open>
  Claim C8, amended. For every input in which every date string parses, the output of
  \<open>convertMOEXData\<close> is the image of the selected window, in order, and the window is
  chronologically non-decreasing.
\<close>

theorem output_chronological:
  assumes "allParse H cs"
  shows "convertMOEXData H t cs
           = map (toCouponData H t (currentCouponDate H t cs)) (selectedCoupons H t cs)
         \<and> chronological H (selectedCoupons H t cs)"
proof -
  have "selectedCoupons H t [] = []"
    by (simp add: selectedCoupons_eq sortedCoupons_def)
  then have "convertMOEXData H t cs
           = map (toCouponData H t (currentCouponDate H t cs)) (selectedCoupons H t cs)"
    by (cases "cs = []") (simp_all add: convertMOEXData_locals)
  with assms show ?thesis by (simp add: chronological_selectedCoupons)
qed

text \<open>
  The amended claim on ten monthly coupons seen from 1 June 2024.
\<close>

theorem output_chronological_witness:
  "convertMOEXData utcHost jun2024 tenMonths
     = map (toCouponData utcHost jun2024 (currentCouponDate utcHost jun2024 tenMonths))
         (selectedCoupons utcHost jun2024 tenMonths)
   \<and> chronological utcHost (selectedCoupons utcHost jun2024 tenMonths)"
  using output_chronological [OF allParse_tenMonths, of jun2024] .

text \<open>
  Claim C8 as stated fails: with an unparseable date between March and January every
  comparison is a tie, the sort leaves the input as it is, and the output shows March before
  January.
\<close>

theorem output_not_chronological:
  "map paymentDate (convertMOEXData utcHost dec2023 marchGarbageJanuary)
     = [''15.03.2024'', ''NaN.NaN.NaN'', ''15.01.2024'']
   \<and> \<not> chronological utcHost (selectedCoupons utcHost dec2023 marchGarbageJanuary)"
proof -
  have "selectedCoupons utcHost dec2023 marchGarbageJanuary = marchGarbageJanuary"
    unfolding selectedCoupons_def startIndex_def endIndex_def sorted_more
      first_marchGarbageJanuary
    by (simp add: marchGarbageJanuary_def slice_def)
  then show ?thesis
    unfolding out_marchGarbageJanuary
    by (simp add: marchGarbageJanuary_def chronological_def entry_simps)
qed

subsection \<open>At most seven entries\<close>

text \<open>
  Claim C9. For every input the window returned by \<open>convertMOEXData\<close> has at most
  seven entries. Six or more entries occur only when the first upcoming index is 1 or 2, so
  that \<open>startIndex\<close> is 0, and the length is then the smaller of the input length and
  that index plus five; seven entries occur only with the index at 2 and at least seven
  records.
\<close>

theorem window_at_most_seven:
  "length (convertMOEXData H t cs) \<le> 7 \<and>
   (6 \<le> length (convertMOEXData H t cs) \<longrightarrow>
      (firstUpcomingIndex H t cs = 1 \<or> firstUpcomingIndex H t cs = 2)
      \<and> firstUpcomingIndex H t cs < int (length cs)
      \<and> startIndex H t cs = 0
      \<and> int (length (convertMOEXData H t cs)) = min (int (length cs)) (firstUpcomingIndex H t cs + 5))
   \<and> (length (convertMOEXData H t cs) = 7 \<longrightarrow> firstUpcomingIndex H t cs = 2 \<and> 7 \<le> length cs)"
  using firstUpcomingIndex_bounds [of H t cs]
  by (auto simp: length_convertMOEXData startIndex_def endIndex_def length_sortedCoupons
      split: if_splits)

text \<open>
  Seven and six entries are reached: seven coupons from April to October, and six from May
  to October, seen from 1 June 2024.
\<close>

theorem window_at_most_seven_witness:
  "length (convertMOEXData utcHost jun2024 aprilToOctober) = 7
   \<and> firstUpcomingIndex utcHost jun2024 aprilToOctober = 2
   \<and> 7 \<le> length aprilToOctober
   \<and> length (convertMOEXData utcHost jun2024 mayToOctober) = 6
   \<and> firstUpcomingIndex utcHost jun2024 mayToOctober = 1
   \<and> startIndex utcHost jun2024 mayToOctober = 0"
proof -
  have seven: "length (convertMOEXData utcHost jun2024 aprilToOctober) = 7"
    by (simp add: length_convertMOEXData startIndex_def endIndex_def first_aprilToOctober
        length_sortedCoupons length_samples)
  have six: "length (convertMOEXData utcHost jun2024 mayToOctober) = 6"
    by (simp add: length_convertMOEXData startIndex_def endIndex_def first_mayToOctober
        length_sortedCoupons length_samples)
  show ?thesis
    using seven six window_at_most_seven [of utcHost jun2024 aprilToOctober]
      window_at_most_seven [of utcHost jun2024 mayToOctober]
    by (simp add: first_mayToOctober)
qed

subsection \<open>The legacy script against the TypeScript function\<close>

text \<open>
  Claim C10, amended. The legacy script and the TypeScript function return the same sequence
  on every input where the first upcoming index is at least 3 or at most three records lie
  from that index on, and every record of the window has a truthy rate and amount.
\<close>

theorem legacy_agrees:
  assumes "3 \<le> firstUpcomingIndex H t cs \<or> int (length cs) \<le> firstUpcomingIndex H t cs + 3"
    and "\<forall>c\<in>set (selectedCoupons H t cs). truthy (valueprc c) \<and> truthy (value_rub c)"
  shows "convertMOEXData_legacy H t cs = convertMOEXData H t cs"
proof -
  have "endIndex H t cs = min (int (length cs)) (firstUpcomingIndex H t cs + 3)"
    using assms(1) firstUpcomingIndex_bounds [of H t cs]
    by (auto simp: endIndex_def startIndex_def length_sortedCoupons)
  then have "convertMOEXData_legacy H t cs =
     map (toCouponData_legacy H t (currentCouponDate H t cs)) (selectedCoupons H t cs)"
    by (simp add: convertMOEXData_legacy_map selectedCoupons_def)
  also have "\<dots> = map (toCouponData H t (currentCouponDate H t cs)) (selectedCoupons H t cs)"
    using assms(2) by (simp add: toCouponData_legacy_truthy)
  finally show ?thesis
    by (simp add: convertMOEXData_map)
qed

text \<open>
  The amended claim on ten monthly coupons seen from 1 June 2024.
\<close>

theorem legacy_agrees_witness:
  "3 \<le> firstUpcomingIndex utcHost jun2024 tenMonths
   \<and> convertMOEXData_legacy utcHost jun2024 tenMonths = convertMOEXData utcHost jun2024 tenMonths"
proof -
  have a: "3 \<le> firstUpcomingIndex utcHost jun2024 tenMonths
             \<or> int (length tenMonths) \<le> firstUpcomingIndex utcHost jun2024 tenMonths + 3"
    by (simp add: first_tenMonths)
  have b: "\<forall>c\<in>set (selectedCoupons utcHost jun2024 tenMonths). truthy (valueprc c) \<and> truthy (value_rub c)"
    unfolding selected_tenMonths_jun by (simp add: couponOn_def)
  show ?thesis
    using legacy_agrees [OF a b] b by (simp add: first_tenMonths)
qed

text \<open>
  Claim C10 as stated fails: seen from 1 December 2023 the ten monthly coupons give five
  entries in the TypeScript function and three in the legacy script; and a coupon without
  rate renders as \<open>-\<close> in the one and as \<open>null%\<close> in the other.
\<close>

theorem legacy_differs:
  "length (convertMOEXData utcHost dec2023 tenMonths) = 5
   \<and> length (convertMOEXData_legacy utcHost dec2023 tenMonths) = 3
   \<and> map rate (convertMOEXData utcHost jun2024 julyNoRate) = [''-'']
   \<and> map rate (convertMOEXData_legacy utcHost jun2024 julyNoRate) = [''null%'']"
  unfolding out_tenMonths_dec out_julyNoRate convertMOEXData_legacy_map sorted_tenMonths
    sorted_more first_tenMonths first_julyNoRate startIndex_def length_samples
  by (simp add: tenMonths_def julyNoRate_def slice_def toCouponData_def toCouponData_legacy_def Let_def)

end
